theory Spec2Isabelle
  imports Complex_Main
begin

section \<open>JavaScript dates\<close>

text \<open>
  A JavaScript \<^verbatim>\<open>Date\<close> holds a time value, a whole number of milliseconds. The
  application reads and writes dates through local-time fields only
  (\<^verbatim>\<open>getHours\<close>, \<^verbatim>\<open>getDate\<close>, \<^verbatim>\<open>getMonth\<close>, \<^verbatim>\<open>setHours\<close>, \<^verbatim>\<open>setDate\<close>) and compares them
  by time value. The model assumes a device time zone with a constant offset (no
  daylight-saving transition) and counts the time value from local midnight of
  1 January 1970, so that the local day of \<open>t\<close> is \<open>t div msPerDay\<close>. The field
  functions follow the definitions of ECMA-262 (Day, TimeWithinDay, DaysInYear,
  DayFromYear, YearFromTime, MonthFromTime, DateFromTime, MakeTime, MakeDay, MakeDate).
  Every date is a valid one (no NaN time value).
\<close>

type_synonym Date = int

definition msPerDay :: int where
  "msPerDay = 24 * 60 * 60 * 1000"

definition Day :: "int \<Rightarrow> int" where
  "Day t = t div msPerDay"

definition TimeWithinDay :: "int \<Rightarrow> int" where
  "TimeWithinDay t = t mod msPerDay"

definition DaysInYear :: "int \<Rightarrow> int" where
  "DaysInYear y =
     (if y mod 4 \<noteq> 0 then 365
      else if y mod 100 \<noteq> 0 then 366
      else if y mod 400 \<noteq> 0 then 365
      else 366)"

definition DayFromYear :: "int \<Rightarrow> int" where
  "DayFromYear y =
     365 * (y - 1970) + (y - 1969) div 4 - (y - 1901) div 100 + (y - 1601) div 400"

text \<open>
  ECMA-262 defines the year of a day as the largest \<open>y\<close> with \<open>DayFromYear y \<le> d\<close>.
  Computed here from the mean length of a Gregorian year (146097 days in 400 years),
  corrected by one year where the estimate misses; \<open>YearFromDay_correct\<close> below shows
  that this is the year of the definition.
\<close>

definition YearFromDay :: "int \<Rightarrow> int" where
  "YearFromDay d =
     (let y = 1970 + (400 * d) div 146097
      in if d < DayFromYear y then y - 1
         else if DayFromYear (y + 1) \<le> d then y + 1
         else y)"

definition YearFromTime :: "int \<Rightarrow> int" where
  "YearFromTime t = YearFromDay (Day t)"

definition InLeapYear :: "int \<Rightarrow> int" where
  "InLeapYear t = (if DaysInYear (YearFromTime t) = 366 then 1 else 0)"

definition DayWithinYear :: "int \<Rightarrow> int" where
  "DayWithinYear t = Day t - DayFromYear (YearFromTime t)"

definition MonthFromTime :: "int \<Rightarrow> int" where
  "MonthFromTime t =
     (let d = DayWithinYear t; l = InLeapYear t
      in if d < 31 then 0
         else if d < 59 + l then 1
         else if d < 90 + l then 2
         else if d < 120 + l then 3
         else if d < 151 + l then 4
         else if d < 181 + l then 5
         else if d < 212 + l then 6
         else if d < 243 + l then 7
         else if d < 273 + l then 8
         else if d < 304 + l then 9
         else if d < 334 + l then 10
         else 11)"

text \<open>Days of the year before the first of month \<open>m\<close> (0 = January).\<close>

definition monthStart :: "int \<Rightarrow> int \<Rightarrow> int" where
  "monthStart l m =
     (if m = 0 then 0
      else if m = 1 then 31
      else if m = 2 then 59 + l
      else if m = 3 then 90 + l
      else if m = 4 then 120 + l
      else if m = 5 then 151 + l
      else if m = 6 then 181 + l
      else if m = 7 then 212 + l
      else if m = 8 then 243 + l
      else if m = 9 then 273 + l
      else if m = 10 then 304 + l
      else 334 + l)"

definition DateFromTime :: "int \<Rightarrow> int" where
  "DateFromTime t = DayWithinYear t - monthStart (InLeapYear t) (MonthFromTime t) + 1"

definition MakeTime :: "int \<Rightarrow> int \<Rightarrow> int \<Rightarrow> int \<Rightarrow> int" where
  "MakeTime h m s ms = h * 3600000 + m * 60000 + s * 1000 + ms"

text \<open>\<open>MakeDay\<close> for a month in \<open>0..11\<close>, the only months the field functions yield.\<close>

definition MakeDay :: "int \<Rightarrow> int \<Rightarrow> int \<Rightarrow> int" where
  "MakeDay y m dt =
     DayFromYear y + monthStart (if DaysInYear y = 366 then 1 else 0) m + dt - 1"

definition MakeDate :: "int \<Rightarrow> int \<Rightarrow> int" where
  "MakeDate d tm = d * msPerDay + tm"

definition getTime :: "Date \<Rightarrow> int" where
  "getTime t = t"

definition getHours :: "Date \<Rightarrow> int" where
  "getHours t = (t div 3600000) mod 24"

definition getDate :: "Date \<Rightarrow> int" where
  "getDate t = DateFromTime t"

definition getMonth :: "Date \<Rightarrow> int" where
  "getMonth t = MonthFromTime t"

text \<open>\<^verbatim>\<open>d.setHours(h, m, s, ms)\<close>: the local day is kept, the time of day replaced.\<close>

definition setHours :: "int \<Rightarrow> int \<Rightarrow> int \<Rightarrow> int \<Rightarrow> Date \<Rightarrow> Date" where
  "setHours h m s ms t = MakeDate (Day t) (MakeTime h m s ms)"

text \<open>
  \<^verbatim>\<open>d.setDate(dt)\<close>: year, month and time of day are kept, the day of the month is
  replaced; a day number outside the month carries into the neighbouring months.
\<close>

definition setDate :: "int \<Rightarrow> Date \<Rightarrow> Date" where
  "setDate dt t = MakeDate (MakeDay (YearFromTime t) (MonthFromTime t) dt) (TimeWithinDay t)"

section \<open>Number to string\<close>

text \<open>
  Template literals print a whole number in decimal, without leading zeros and with a
  minus sign when negative.
\<close>

definition digit :: "nat \<Rightarrow> char" where
  "digit n = char_of (48 + n)"

function toDigits :: "nat \<Rightarrow> string" where
  "toDigits n = (if n < 10 then [digit n] else toDigits (n div 10) @ [digit (n mod 10)])"
  by pat_completeness auto
termination
  by (relation "measure id") auto

declare toDigits.simps [simp del]

definition numToString :: "int \<Rightarrow> string" where
  "numToString i = (if i < 0 then CHR ''-'' # toDigits (nat (- i)) else toDigits (nat i))"

section \<open>Log entries\<close>

text \<open>
  An entry of the log. Its numbers are JavaScript numbers, modelled as reals: no result
  below depends on rounding. The optional \<^verbatim>\<open>id\<close> and \<^verbatim>\<open>userId\<close> are never read. A
  timestamp given as a Firestore \<^verbatim>\<open>Timestamp\<close> is converted by \<^verbatim>\<open>toDate()\<close> before any use;
  the model holds the date. The type of the timestamp is a parameter: the date itself
  (\<open>WaterLogEntry\<close>) wherever a date is only read, the address of a \<^verbatim>\<open>Date\<close> object in the
  model of \<^verbatim>\<open>dataBoundaries\<close> over an object store below.
\<close>

record 'd WaterLogEntryOf =
  amountCups :: real
  fatigue :: real
  timestamp :: 'd

type_synonym WaterLogEntry = "Date WaterLogEntryOf"

section \<open>The navigation window (app/(tabs)/index.tsx)\<close>

datatype TimeSpan = day | week | twoweeks | month

fun getWindowLength :: "TimeSpan \<Rightarrow> int" where
  "getWindowLength day = 1"
| "getWindowLength week = 7"
| "getWindowLength twoweeks = 14"
| "getWindowLength month = 30"

text \<open>The memoised pair \<^verbatim>\<open>{ windowStart, windowEnd }\<close> of the current date and time span.\<close>

definition windowEnd :: "Date \<Rightarrow> Date" where
  "windowEnd currentDate = setHours 23 59 59 999 currentDate"

definition windowStart :: "Date \<Rightarrow> TimeSpan \<Rightarrow> Date" where
  "windowStart currentDate timespan =
     (let end = windowEnd currentDate;
          start = setDate (getDate end - (getWindowLength timespan - 1)) end
      in setHours 0 0 0 0 start)"


text \<open>
  \<^verbatim>\<open>dataBoundaries\<close>: the field \<^verbatim>\<open>earliest\<close>. The clock is read by \<^verbatim>\<open>new Date()\<close>; its value
  is the parameter \<open>now\<close>.
\<close>

definition dataBoundaries :: "Date \<Rightarrow> WaterLogEntry list \<Rightarrow> Date" where
  "dataBoundaries now fullData =
     (if length fullData = 0 then now
      else foldl (\<lambda>earliest entry. if timestamp entry < earliest then timestamp entry else earliest)
             now fullData)"

definition canGoBack :: "WaterLogEntry list \<Rightarrow> Date \<Rightarrow> TimeSpan \<Rightarrow> Date \<Rightarrow> bool" where
  "canGoBack fullData wStart timespan earliest =
     (if length fullData = 0 then False
      else (let nextStart = setDate (getDate wStart - getWindowLength timespan) wStart
            in earliest \<le> nextStart))"

definition canGoForward :: "Date \<Rightarrow> Date \<Rightarrow> bool" where
  "canGoForward now currentDate = (currentDate < setHours 23 59 59 999 now)"

text \<open>The state updates of \<^verbatim>\<open>handleBack\<close> and \<^verbatim>\<open>handleForward\<close>, from the previous date.\<close>

definition handleBack :: "TimeSpan \<Rightarrow> Date \<Rightarrow> Date \<Rightarrow> Date" where
  "handleBack timespan earliest prev =
     (let newDate = setDate (getDate prev - getWindowLength timespan) prev;
          newWindowStart =
            setHours 0 0 0 0 (setDate (getDate newDate - (getWindowLength timespan - 1)) newDate)
      in if newWindowStart < earliest
         then setHours 23 59 59 999
                (setDate (getDate earliest + (getWindowLength timespan - 1)) earliest)
         else newDate)"

definition handleForward :: "TimeSpan \<Rightarrow> Date \<Rightarrow> Date \<Rightarrow> Date" where
  "handleForward timespan now prev =
     (let newDate = setDate (getDate prev + getWindowLength timespan) prev;
          now' = setHours 23 59 59 999 now
      in if now' < newDate then now' else newDate)"


definition forwardButton :: "Date \<Rightarrow> TimeSpan \<Rightarrow> Date \<Rightarrow> Date" where
  "forwardButton now timespan currentDate =
     (if canGoForward now currentDate then handleForward timespan now currentDate
      else currentDate)"

subsection \<open>dataBoundaries over a store of Date objects\<close>

text \<open>
  A \<^verbatim>\<open>Date\<close> is a mutable object (\<^verbatim>\<open>setHours\<close> and \<^verbatim>\<open>setDate\<close> write to it), and each entry
  refers to its timestamp object. The store lists the time values of the objects
  allocated so far; an address is an index into it. \<^verbatim>\<open>new Date(x)\<close> allocates a new object.
  This model of \<^verbatim>\<open>dataBoundaries\<close> returns the address of \<^verbatim>\<open>earliest\<close> and the store after the
  call.
\<close>

type_synonym store = "Date list"

definition newDate :: "Date \<Rightarrow> store \<Rightarrow> nat \<times> store" where
  "newDate v h = (length h, h @ [v])"

definition dataBoundaries_store :: "Date \<Rightarrow> store \<Rightarrow> nat WaterLogEntryOf list \<Rightarrow> nat \<times> store" where
  "dataBoundaries_store now h fullData =
     (if length fullData = 0 then newDate now h
      else foldl (\<lambda>(earliest, h) entry.
                    if h ! timestamp entry < h ! earliest then newDate (h ! timestamp entry) h
                    else (earliest, h))
             (newDate now h) fullData)"

text \<open>The entries as the store shows them: each timestamp address replaced by its date.\<close>

definition snapshot :: "store \<Rightarrow> nat WaterLogEntryOf list \<Rightarrow> WaterLogEntry list" where
  "snapshot h fullData =
     map (\<lambda>e. \<lparr>amountCups = amountCups e, fatigue = fatigue e, timestamp = h ! timestamp e\<rparr>)
       fullData"

subsection \<open>The earliest bound as the specification words it\<close>

text \<open>
  The specification's \<open>earliestOf\<close>: the minimum timestamp of the observations, or none
  for an empty collection. Written from the specification, to be compared with
  \<open>dataBoundaries\<close>.
\<close>

definition earliestOf_spec :: "WaterLogEntry list \<Rightarrow> Date option" where
  "earliestOf_spec observations =
     (if observations = [] then None else Some (Min (timestamp ` set observations)))"

section \<open>Chart data (components/chart/chartUtils.ts)\<close>

record ChartData =
  labels :: "string list"
  waterData :: "real list"
  fatigueData :: "real list"

record Bucket =
  waterTotal :: real
  fatigueCount :: nat
  fatigueSum :: real

record DayBucket = Bucket +
  date :: Date

text \<open>The three updates of a bucket by an entry, shared by both loops.\<close>

definition addEntry :: "'a Bucket_scheme \<Rightarrow> WaterLogEntry \<Rightarrow> 'a Bucket_scheme" where
  "addEntry bucket entry =
     bucket\<lparr>waterTotal := waterTotal bucket + amountCups entry,
            fatigueSum := fatigueSum bucket + fatigue entry,
            fatigueCount := fatigueCount bucket + 1\<rparr>"

definition averageFatigue :: "'a Bucket_scheme \<Rightarrow> real" where
  "averageFatigue bucket =
     (if fatigueCount bucket \<noteq> 0 then fatigueSum bucket / real (fatigueCount bucket) else 0)"

subsection \<open>groupEntriesByHour\<close>

text \<open>The body of the loop over the entries: \<^verbatim>\<open>hour\<close> is in \<open>0..23\<close>, an index of the array.\<close>

definition hourStep :: "Bucket list \<Rightarrow> WaterLogEntry \<Rightarrow> Bucket list" where
  "hourStep buckets entry =
     (let hour = nat (getHours (timestamp entry))
      in buckets[hour := addEntry (buckets ! hour) entry])"

definition hourBuckets :: "WaterLogEntry list \<Rightarrow> Bucket list" where
  "hourBuckets es =
     foldl hourStep (replicate 24 \<lparr>waterTotal = 0, fatigueCount = 0, fatigueSum = 0\<rparr>) es"

definition hourLabel :: "nat \<Rightarrow> string" where
  "hourLabel i =
     (let hour = (if i mod 12 \<noteq> 0 then i mod 12 else 12);
          ampm = (if i < 12 then ''AM'' else ''PM'')
      in numToString (int hour) @ ampm)"

definition groupEntriesByHour :: "WaterLogEntry list \<Rightarrow> ChartData" where
  "groupEntriesByHour es =
     \<lparr>labels = map hourLabel [0..<24],
      waterData = map waterTotal (hourBuckets es),
      fatigueData = map averageFatigue (hourBuckets es)\<rparr>"

subsection \<open>groupEntriesByDay\<close>

text \<open>\<^verbatim>\<open>entries.reduce\<close> without an initial value, on a non-empty array.\<close>

definition latestEntry :: "WaterLogEntry list \<Rightarrow> WaterLogEntry" where
  "latestEntry es =
     foldl (\<lambda>prev curr. if timestamp curr \<le> timestamp prev then prev else curr) (hd es) (tl es)"

text \<open>The local \<^verbatim>\<open>windowEnd\<close> and \<^verbatim>\<open>windowStart\<close> of \<^verbatim>\<open>groupEntriesByDay\<close>.\<close>

definition groupWindowEnd :: "Date \<Rightarrow> WaterLogEntry list \<Rightarrow> Date" where
  "groupWindowEnd now es =
     (if 0 < length es then setHours 23 59 59 999 (timestamp (latestEntry es))
      else setHours 23 59 59 999 now)"

definition groupWindowStart :: "Date \<Rightarrow> WaterLogEntry list \<Rightarrow> int \<Rightarrow> Date" where
  "groupWindowStart now es days =
     (let wEnd = groupWindowEnd now es;
          start = setHours 0 0 0 0 wEnd
      in setDate (getDate wEnd - (days - 1)) start)"

definition bucketIndex :: "Date \<Rightarrow> WaterLogEntry \<Rightarrow> int" where
  "bucketIndex wStart entry = (getTime (timestamp entry) - getTime wStart) div (24 * 60 * 60 * 1000)"

text \<open>The body of the loop over the entries.\<close>

definition dayStep :: "Date \<Rightarrow> DayBucket list \<Rightarrow> WaterLogEntry \<Rightarrow> DayBucket list" where
  "dayStep wStart buckets entry =
     (let i = bucketIndex wStart entry
      in if 0 \<le> i \<and> i < int (length buckets)
         then buckets[nat i := addEntry (buckets ! nat i) entry]
         else buckets)"

definition dayBuckets :: "Date \<Rightarrow> WaterLogEntry list \<Rightarrow> int \<Rightarrow> DayBucket list" where
  "dayBuckets now es days0 =
     (let days = (if days0 \<le> 0 then 1 else days0);
          wStart = groupWindowStart now es days
      in foldl (dayStep wStart)
           (map (\<lambda>i. \<lparr>waterTotal = 0, fatigueCount = 0, fatigueSum = 0,
                       date = setDate (getDate wStart + int i) wStart\<rparr>)
              [0..<nat days])
           es)"

definition dayLabel :: "Date \<Rightarrow> string" where
  "dayLabel d = numToString (getMonth d + 1) @ ''/'' @ numToString (getDate d)"

definition groupEntriesByDay :: "Date \<Rightarrow> WaterLogEntry list \<Rightarrow> int \<Rightarrow> ChartData" where
  "groupEntriesByDay now es days =
     \<lparr>labels = map (\<lambda>bucket. dayLabel (date bucket)) (dayBuckets now es days),
      waterData = map waterTotal (dayBuckets now es days),
      fatigueData = map averageFatigue (dayBuckets now es days)\<rparr>"

subsection \<open>processEntriesForChart\<close>

fun processEntriesForChart :: "Date \<Rightarrow> WaterLogEntry list \<Rightarrow> TimeSpan \<Rightarrow> ChartData" where
  "processEntriesForChart now es day = groupEntriesByHour es"
| "processEntriesForChart now es week = groupEntriesByDay now es 7"
| "processEntriesForChart now es twoweeks = groupEntriesByDay now es 14"
| "processEntriesForChart now es month = groupEntriesByDay now es 30"


section \<open>Facts about dates\<close>

lemma msPerDay_pos: "0 < msPerDay"
  by (simp add: msPerDay_def)

lemma MakeDay_fields: "MakeDay (YearFromTime t) (MonthFromTime t) (DateFromTime t + k) = Day t + k"
  by (simp add: MakeDay_def DateFromTime_def DayWithinYear_def InLeapYear_def)

lemma Day_MakeDate: "0 \<le> tm \<Longrightarrow> tm < msPerDay \<Longrightarrow> Day (MakeDate d tm) = d"
  by (simp add: Day_def MakeDate_def div_pos_pos_trivial msPerDay_def)

lemma TimeWithinDay_MakeDate:
  "0 \<le> tm \<Longrightarrow> tm < msPerDay \<Longrightarrow> TimeWithinDay (MakeDate d tm) = tm"
  by (simp add: TimeWithinDay_def MakeDate_def msPerDay_def)

lemma Date_split: "t = MakeDate (Day t) (TimeWithinDay t)"
  by (simp add: MakeDate_def Day_def TimeWithinDay_def)

lemma TimeWithinDay_range: "0 \<le> TimeWithinDay t \<and> TimeWithinDay t < msPerDay"
  by (simp add: TimeWithinDay_def msPerDay_def)

text \<open>Moving the day of the month by \<open>k\<close> moves the date by \<open>k\<close> whole days.\<close>

lemma setDate_shift: "setDate (getDate t + k) t = t + k * msPerDay"
proof -
  have "setDate (getDate t + k) t = MakeDate (Day t + k) (TimeWithinDay t)"
    by (simp add: setDate_def getDate_def MakeDay_fields)
  also have "\<dots> = MakeDate (Day t) (TimeWithinDay t) + k * msPerDay"
    by (simp add: MakeDate_def algebra_simps)
  finally show ?thesis
    using Date_split [of t] by simp
qed

lemma Day_shift: "Day (t + k * msPerDay) = Day t + k"
  by (simp add: Day_def msPerDay_def)

lemma Day_setHours:
  "0 \<le> MakeTime h m s ms \<Longrightarrow> MakeTime h m s ms < msPerDay \<Longrightarrow> Day (setHours h m s ms t) = Day t"
  by (simp add: setHours_def Day_MakeDate)

lemma endOfDay_time: "MakeTime 23 59 59 999 = msPerDay - 1"
  by (simp add: MakeTime_def msPerDay_def)

lemma startOfDay_time: "MakeTime 0 0 0 0 = 0"
  by (simp add: MakeTime_def)

lemma Day_windowEnd: "Day (windowEnd c) = Day c"
  by (simp add: windowEnd_def Day_setHours endOfDay_time msPerDay_def)

lemma windowEnd_eq: "windowEnd c = Day c * msPerDay + (msPerDay - 1)"
  by (simp add: windowEnd_def setHours_def MakeDate_def endOfDay_time)

lemma setDate_shift_back: "setDate (getDate t - k) t = t - k * msPerDay"
proof -
  have "getDate t - k = getDate t + (- k)"
    by simp
  then have "setDate (getDate t - k) t = t + (- k) * msPerDay"
    by (simp only: setDate_shift)
  then show ?thesis
    by simp
qed

lemma Day_shift_back: "Day (t - k * msPerDay) = Day t - k"
  using Day_shift [of t "- k"] by simp

lemma windowStart_eq:
  "windowStart c sp = (Day c - (getWindowLength sp - 1)) * msPerDay"
proof -
  have "windowStart c sp
          = MakeDate (Day (windowEnd c - (getWindowLength sp - 1) * msPerDay)) 0"
    by (simp add: windowStart_def Let_def setHours_def startOfDay_time setDate_shift_back)
  then show ?thesis
    by (simp only: Day_shift_back Day_windowEnd) (simp add: MakeDate_def)
qed

lemma startOfDay_eq: "setHours 0 0 0 0 t = Day t * msPerDay"
  by (simp add: setHours_def MakeDate_def startOfDay_time)

lemma endOfDay_eq: "setHours 23 59 59 999 t = Day t * msPerDay + (msPerDay - 1)"
  by (simp add: setHours_def MakeDate_def endOfDay_time)

lemma Day_mult: "Day (d * msPerDay) = d"
  by (simp add: Day_def msPerDay_def)

lemma Day_endOfDay: "Day (d * msPerDay + (msPerDay - 1)) = d"
  using Day_MakeDate [of "msPerDay - 1" d] by (simp add: MakeDate_def msPerDay_def)

subsection \<open>The year of a day\<close>








text \<open>Known dates: 1 January 1970, 29 February and 1 March 2000, 10 January 2024.\<close>

lemma calendar_examples:
  "(YearFromTime 0, getMonth 0, getDate 0) = (1970, 0, 1)"
  "(YearFromTime (11016 * msPerDay), getMonth (11016 * msPerDay), getDate (11016 * msPerDay))
     = (2000, 1, 29)"
  "(YearFromTime (11017 * msPerDay), getMonth (11017 * msPerDay), getDate (11017 * msPerDay))
     = (2000, 2, 1)"
  "(YearFromTime (19732 * msPerDay), getMonth (19732 * msPerDay), getDate (19732 * msPerDay))
     = (2024, 0, 10)"
  by code_simp+

section \<open>Facts about the navigation\<close>

lemma getWindowLength_pos: "1 \<le> getWindowLength sp"
  by (cases sp) simp_all

lemma handleBack_eq:
  "handleBack sp e a =
     (if windowStart (a - getWindowLength sp * msPerDay) sp < e
      then windowEnd (e + (getWindowLength sp - 1) * msPerDay)
      else a - getWindowLength sp * msPerDay)"
  by (simp add: handleBack_def Let_def setDate_shift_back setDate_shift startOfDay_eq
      windowStart_eq windowEnd_def Day_shift_back)

lemma handleForward_eq:
  "handleForward sp now a =
     (if windowEnd now < a + getWindowLength sp * msPerDay then windowEnd now
      else a + getWindowLength sp * msPerDay)"
  by (simp add: handleForward_def Let_def setDate_shift windowEnd_def)

lemma canGoBack_eq:
  "canGoBack fd ws sp e = (fd \<noteq> [] \<and> e \<le> ws - getWindowLength sp * msPerDay)"
  by (simp add: canGoBack_def Let_def setDate_shift_back)

text \<open>
  Claim C8. For every anchor and every span, the end of the window is the anchor's calendar
  day at 23:59:59.999, its start is 00:00:00.000 of the day \<open>windowLength - 1\<close> days before
  the day of the end, the start is not after the end, and the window covers exactly
  \<open>windowLength\<close> calendar days.
\<close>

theorem C8_window_shape:
  "Day (windowEnd a) = Day a
   \<and> TimeWithinDay (windowEnd a) = MakeTime 23 59 59 999
   \<and> Day (windowStart a sp) = Day (windowEnd a) - (getWindowLength sp - 1)
   \<and> TimeWithinDay (windowStart a sp) = MakeTime 0 0 0 0
   \<and> windowStart a sp \<le> windowEnd a
   \<and> Day (windowEnd a) - Day (windowStart a sp) + 1 = getWindowLength sp"
proof -
  have e: "Day (windowEnd a) = Day a"
    by (rule Day_windowEnd)
  have te: "TimeWithinDay (windowEnd a) = MakeTime 23 59 59 999"
    unfolding windowEnd_def setHours_def
    by (rule TimeWithinDay_MakeDate) (simp_all add: endOfDay_time msPerDay_def)
  have s: "Day (windowStart a sp) = Day a - (getWindowLength sp - 1)"
    by (simp add: windowStart_eq Day_mult)
  have ts: "TimeWithinDay (windowStart a sp) = MakeTime 0 0 0 0"
    by (simp add: windowStart_eq TimeWithinDay_def startOfDay_time)
  have "windowStart a sp \<le> Day a * msPerDay"
    using getWindowLength_pos [of sp] msPerDay_pos
    by (simp add: windowStart_eq mult_right_mono)
  then have le: "windowStart a sp \<le> windowEnd a"
    using msPerDay_pos by (simp add: windowEnd_eq)
  show ?thesis
    using e te s ts le by simp
qed

text \<open>
  Claim C4. \<open>canGoBack\<close> holds exactly when the data is not empty (the earliest bound is
  defined) and the start of the current window, moved back by \<open>windowLength\<close> days, is not
  before the earliest bound; for empty data it is false.
\<close>

theorem C4_canGoBack_iff:
  "canGoBack fullData (windowStart a sp) sp earliest
     = (fullData \<noteq> [] \<and> earliest \<le> windowStart a sp - getWindowLength sp * msPerDay)
   \<and> canGoBack [] (windowStart a sp) sp earliest = False"
  by (simp add: canGoBack_eq)



lemma dataBoundaries_empty: "dataBoundaries now [] = now"
  by (simp add: dataBoundaries_def)



text \<open>
  Claim C5, as stated, fails. Now is 4 October 2024 10:00 (1728036000000), the anchor
  1 October 2024 23:59:59.999 (1727827199999), span week, earliest bound 26 June 2024
  (1719360000000). \<open>handleForward\<close> is clamped to the end of 4 October; \<open>handleBack\<close> is not
  clamped and returns the end of 27 September, which is neither the original anchor nor the
  clamped value.
\<close>

theorem C5_counterexample:
  "handleForward week 1728036000000 1727827199999 = windowEnd 1728036000000
   \<and> windowEnd 1728036000000 \<noteq> 1727827199999 + getWindowLength week * msPerDay
   \<and> handleBack week 1719360000000 (handleForward week 1728036000000 1727827199999)
        \<noteq> 1727827199999
   \<and> handleBack week 1719360000000 (handleForward week 1728036000000 1727827199999)
        \<noteq> windowEnd 1728036000000"
  by code_simp

text \<open>
  Claim C5, amended. \<open>handleForward\<close> followed by \<open>handleBack\<close> returns: the clamp value of
  \<open>handleBack\<close> (the earliest bound plus \<open>windowLength - 1\<close> days at 23:59:59.999) when the
  step back is clamped; otherwise, when the step forward was clamped by now, the end of
  today minus \<open>windowLength\<close> days; otherwise the original anchor.
\<close>

theorem C5_forward_then_back:
  "handleBack sp earliest (handleForward sp now a) =
     (if windowStart (handleForward sp now a - getWindowLength sp * msPerDay) sp < earliest
      then windowEnd (earliest + (getWindowLength sp - 1) * msPerDay)
      else if windowEnd now < a + getWindowLength sp * msPerDay
      then windowEnd now - getWindowLength sp * msPerDay
      else a)"
  by (simp add: handleBack_eq handleForward_eq)



subsection \<open>The earliest bound\<close>

lemma foldl_earliest:
  fixes a :: Date
  shows "foldl (\<lambda>earliest entry. if timestamp entry < earliest then timestamp entry else earliest) a es
     = Min (insert a (timestamp ` set es))"
proof (induction es arbitrary: a)
  case Nil
  show ?case by simp
next
  case (Cons e es)
  have "Min (insert a (timestamp ` set (e # es)))
          = Min (insert (min (timestamp e) a) (timestamp ` set es))"
  proof (cases "es = []")
    case True
    then show ?thesis by (simp add: min.commute)
  next
    case False
    then have ne: "timestamp ` set es \<noteq> {}" by simp
    have "Min (insert a (insert (timestamp e) (timestamp ` set es)))
            = min a (min (timestamp e) (Min (timestamp ` set es)))"
      using ne by simp
    also have "\<dots> = min (min (timestamp e) a) (Min (timestamp ` set es))"
      by (simp add: min.assoc min.left_commute min.commute)
    also have "\<dots> = Min (insert (min (timestamp e) a) (timestamp ` set es))"
      using ne by simp
    finally show ?thesis by simp
  qed
  moreover have "(if timestamp e < a then timestamp e else a) = min (timestamp e) a"
    by (simp add: min_def)
  ultimately show ?case
    using Cons.IH [of "min (timestamp e) a"] by simp
qed

lemma dataBoundaries_Min:
  "dataBoundaries now fullData = Min (insert now (timestamp ` set fullData))"
  by (cases "fullData = []") (simp_all add: dataBoundaries_def foldl_earliest)

lemma dataBoundaries_past:
  assumes "fullData \<noteq> []" "Min (timestamp ` set fullData) \<le> now"
  shows "dataBoundaries now fullData = Min (timestamp ` set fullData)"
proof -
  have "timestamp ` set fullData \<noteq> {}"
    using assms(1) by simp
  then have "Min (insert now (timestamp ` set fullData)) = min now (Min (timestamp ` set fullData))"
    by simp
  then show ?thesis
    using assms(2) by (simp add: dataBoundaries_Min min_def)
qed

text \<open>The loop over the store: it appends to the store and never writes to it.\<close>

lemma store_loop:
  assumes "\<forall>e \<in> set fd. timestamp e < length h" "r < length (h @ ys)"
  shows "\<exists>r' zs.
           foldl (\<lambda>(earliest, h) entry.
                    if h ! timestamp entry < h ! earliest then newDate (h ! timestamp entry) h
                    else (earliest, h))
             (r, h @ ys) fd = (r', h @ zs)
           \<and> r' < length (h @ zs)
           \<and> (h @ zs) ! r'
               = foldl (\<lambda>earliest entry. if timestamp entry < earliest then timestamp entry else earliest)
                   ((h @ ys) ! r) (snapshot h fd)"
  using assms
proof (induction fd arbitrary: r ys)
  case Nil
  then show ?case by (simp add: snapshot_def)
next
  case (Cons e fd)
  have e: "timestamp e < length h" and rest: "\<forall>e \<in> set fd. timestamp e < length h"
    using Cons.prems(1) by simp_all
  have rd: "(h @ ys) ! timestamp e = h ! timestamp e"
    using e by (simp add: nth_append)
  show ?case
  proof (cases "h ! timestamp e < (h @ ys) ! r")
    case True
    have step: "newDate (h ! timestamp e) (h @ ys) = (length (h @ ys), h @ (ys @ [h ! timestamp e]))"
      by (simp add: newDate_def)
    have "length (h @ ys) < length (h @ (ys @ [h ! timestamp e]))"
      by simp
    from Cons.IH [OF rest this]
    show ?thesis
      using True rd step by (simp add: snapshot_def nth_append)
  next
    case False
    from Cons.IH [OF rest Cons.prems(2)]
    show ?thesis
      using False rd by (simp add: snapshot_def)
  qed
qed

lemma dataBoundaries_store_sound:
  assumes "\<forall>e \<in> set fd. timestamp e < length h"
  shows "\<exists>r zs. dataBoundaries_store now h fd = (r, h @ zs) \<and> r < length (h @ zs)
           \<and> (h @ zs) ! r = dataBoundaries now (snapshot h fd)"
proof (cases "fd = []")
  case True
  then show ?thesis
    by (simp add: dataBoundaries_store_def dataBoundaries_def newDate_def snapshot_def)
next
  case False
  have "length h < length (h @ [now])"
    by simp
  from store_loop [OF assms this] False
  show ?thesis
    by (simp add: dataBoundaries_store_def dataBoundaries_def newDate_def snapshot_def)
qed

lemma snapshot_append:
  "\<forall>e \<in> set fd. timestamp e < length h \<Longrightarrow> snapshot (h @ zs) fd = snapshot h fd"
  by (simp add: snapshot_def nth_append)

text \<open>
  Claim C7, as stated, fails. For the empty snapshot \<open>dataBoundaries\<close> returns the current
  time, a date, where the claim has none. (For a snapshot whose only entry lies after the
  current time it returns the current time as well, not the entry's timestamp.)
\<close>

theorem C7_counterexample:
  "Some (dataBoundaries 1000 []) \<noteq> earliestOf_spec []
   \<and> Some (dataBoundaries 1000 [\<lparr>amountCups = 1, fatigue = 3, timestamp = 2000\<rparr>])
       \<noteq> earliestOf_spec [\<lparr>amountCups = 1, fatigue = 3, timestamp = 2000\<rparr>]"
  by (simp add: dataBoundaries_def earliestOf_spec_def)

text \<open>
  Claim C7, amended. For every non-empty snapshot whose minimum timestamp is not after the
  current time, \<open>dataBoundaries\<close> returns exactly the minimum timestamp; for the empty
  snapshot it returns the current time; and it does not write to its input: run over a
  store of \<^verbatim>\<open>Date\<close> objects in which every entry's timestamp is allocated, it only appends
  new objects, the object it returns holds the date computed, and the entries read the
  same afterwards.
\<close>

theorem C7_dataBoundaries:
  assumes "\<forall>e \<in> set stored. timestamp e < length h"
  shows "(stored \<noteq> [] \<and> Min (timestamp ` set (snapshot h stored)) \<le> now
            \<longrightarrow> dataBoundaries now (snapshot h stored) = Min (timestamp ` set (snapshot h stored)))
         \<and> dataBoundaries now [] = now
         \<and> (\<exists>r zs. dataBoundaries_store now h stored = (r, h @ zs)
               \<and> (h @ zs) ! r = dataBoundaries now (snapshot h stored)
               \<and> snapshot (h @ zs) stored = snapshot h stored)"
proof -
  have "stored \<noteq> [] \<Longrightarrow> snapshot h stored \<noteq> []"
    by (simp add: snapshot_def)
  then have past: "stored \<noteq> [] \<and> Min (timestamp ` set (snapshot h stored)) \<le> now
            \<longrightarrow> dataBoundaries now (snapshot h stored) = Min (timestamp ` set (snapshot h stored))"
    using dataBoundaries_past [of "snapshot h stored" now] by blast
  obtain r zs where st: "dataBoundaries_store now h stored = (r, h @ zs)"
      "(h @ zs) ! r = dataBoundaries now (snapshot h stored)"
    using dataBoundaries_store_sound [OF assms, of now] by blast
  have "snapshot (h @ zs) stored = snapshot h stored"
    using assms by (rule snapshot_append)
  with st past show ?thesis
    by (simp add: dataBoundaries_empty)
qed

theorem C7_dataBoundaries_witness:
  "dataBoundaries 5000
       (snapshot [3000, 1000, 2000]
          [\<lparr>amountCups = 1, fatigue = 3, timestamp = 0\<rparr>,
           \<lparr>amountCups = 2, fatigue = 4, timestamp = 1\<rparr>,
           \<lparr>amountCups = 1, fatigue = 5, timestamp = 2\<rparr>]) = 1000
   \<and> dataBoundaries_store 5000 [3000, 1000, 2000]
          [\<lparr>amountCups = 1, fatigue = 3, timestamp = 0\<rparr>,
           \<lparr>amountCups = 2, fatigue = 4, timestamp = 1\<rparr>,
           \<lparr>amountCups = 1, fatigue = 5, timestamp = 2\<rparr>]
       = (5, [3000, 1000, 2000] @ [5000, 3000, 1000])"
proof -
  let ?S = "[\<lparr>amountCups = 1, fatigue = 3, timestamp = 0\<rparr>,
           \<lparr>amountCups = 2, fatigue = 4, timestamp = 1\<rparr>,
           \<lparr>amountCups = 1, fatigue = 5, timestamp = 2::nat\<rparr>]"
  let ?H = "[3000, 1000, 2000 :: int]"
  have wf: "\<forall>e \<in> set ?S. timestamp e < length ?H"
    by simp
  have m: "?S \<noteq> [] \<and> Min (timestamp ` set (snapshot ?H ?S)) \<le> 5000"
    by (simp add: snapshot_def)
  have v: "Min (timestamp ` set (snapshot ?H ?S)) = 1000"
    by (simp add: snapshot_def)
  have st: "dataBoundaries_store 5000 ?H ?S = (5, ?H @ [5000, 3000, 1000])"
    by (simp add: dataBoundaries_store_def newDate_def)
  show ?thesis
    using C7_dataBoundaries [OF wf, of 5000] m v st by simp
qed

section \<open>Facts about the chart data\<close>


lemma addEntry_date: "date (addEntry b e) = date b"
  by (simp add: addEntry_def)





lemma dayStep_length: "length (dayStep w bs e) = length bs"
  by (simp add: dayStep_def Let_def)

lemma day_loop_length: "length (foldl (dayStep w) bs es) = length bs"
  by (induction es arbitrary: bs) (simp_all add: dayStep_length)

lemma dayStep_dates: "map date (dayStep w bs e) = map date bs"
proof (cases "0 \<le> bucketIndex w e \<and> bucketIndex w e < int (length bs)")
  case True
  then have "nat (bucketIndex w e) < length bs"
    by (simp add: nat_less_iff)
  then have "(map date bs)[nat (bucketIndex w e) := date (bs ! nat (bucketIndex w e))] = map date bs"
    by (simp add: list_update_same_conv)
  then show ?thesis
    using True by (simp add: dayStep_def Let_def map_update addEntry_date)
next
  case False
  then have "dayStep w bs e = bs"
    unfolding dayStep_def Let_def by (rule if_not_P)
  then show ?thesis
    by simp
qed

lemma day_loop_dates: "map date (foldl (dayStep w) bs es) = map date bs"
  by (induction es arbitrary: bs) (simp_all add: dayStep_dates)


lemma dayBuckets_eq:
  "dayBuckets now es days =
     foldl (dayStep (groupWindowStart now es (if days \<le> 0 then 1 else days)))
       (map (\<lambda>i. \<lparr>waterTotal = 0, fatigueCount = 0, fatigueSum = 0,
                   date = groupWindowStart now es (if days \<le> 0 then 1 else days) + int i * msPerDay\<rparr>)
          [0..<nat (if days \<le> 0 then 1 else days)])
       es"
  unfolding dayBuckets_def Let_def setDate_shift ..

lemma dayBuckets_length:
  "length (dayBuckets now es days) = nat (if days \<le> 0 then 1 else days)"
  unfolding dayBuckets_eq day_loop_length by simp

lemma dayBuckets_dates:
  "map date (dayBuckets now es days)
     = map (\<lambda>i. groupWindowStart now es (if days \<le> 0 then 1 else days) + int i * msPerDay)
         [0..<nat (if days \<le> 0 then 1 else days)]"
  unfolding dayBuckets_eq day_loop_dates by (simp add: comp_def)









lemma getDate_Day: "Day s = Day t \<Longrightarrow> getDate s = getDate t"
  by (simp add: getDate_def DateFromTime_def DayWithinYear_def MonthFromTime_def InLeapYear_def
      YearFromTime_def)

lemma foldl_latest:
  fixes p :: WaterLogEntry
  shows "timestamp (foldl (\<lambda>prev curr. if timestamp curr \<le> timestamp prev then prev else curr) p xs)
     = Max (insert (timestamp p) (timestamp ` set xs))"
proof (induction xs arbitrary: p)
  case Nil
  show ?case by simp
next
  case (Cons x xs)
  let ?q = "if timestamp x \<le> timestamp p then p else x"
  have q: "timestamp ?q = max (timestamp p) (timestamp x)"
    by (simp add: max_def)
  have "Max (insert (timestamp p) (timestamp ` set (x # xs)))
          = Max (insert (max (timestamp p) (timestamp x)) (timestamp ` set xs))"
  proof (cases "xs = []")
    case True
    then show ?thesis by (simp add: max.commute)
  next
    case False
    then have ne: "timestamp ` set xs \<noteq> {}" by simp
    have "Max (insert (timestamp p) (insert (timestamp x) (timestamp ` set xs)))
            = max (timestamp p) (max (timestamp x) (Max (timestamp ` set xs)))"
      using ne by simp
    also have "\<dots> = max (max (timestamp p) (timestamp x)) (Max (timestamp ` set xs))"
      by (simp add: max.assoc)
    also have "\<dots> = Max (insert (max (timestamp p) (timestamp x)) (timestamp ` set xs))"
      using ne by simp
    finally show ?thesis by simp
  qed
  then show ?case
    using Cons.IH [of ?q] q by simp
qed

lemma latestEntry_Max:
  fixes es :: "WaterLogEntry list"
  assumes "es \<noteq> []"
  shows "timestamp (latestEntry es) = Max (timestamp ` set es)"
proof -
  obtain x xs where e: "es = x # xs"
    using assms by (cases es) auto
  show ?thesis
    unfolding latestEntry_def e by (simp add: foldl_latest)
qed

text \<open>The date that anchors the buckets: the latest timestamp, or the clock without entries.\<close>

lemma groupWindowEnd_eq:
  "groupWindowEnd now es
     = Day (if es = [] then now else Max (timestamp ` set es)) * msPerDay + (msPerDay - 1)"
  by (simp add: groupWindowEnd_def endOfDay_eq latestEntry_Max)

lemma groupWindowStart_eq:
  "groupWindowStart now es d
     = (Day (if es = [] then now else Max (timestamp ` set es)) - (d - 1)) * msPerDay"
proof -
  let ?A = "if es = [] then now else Max (timestamp ` set es)"
  let ?e = "groupWindowEnd now es"
  let ?s = "setHours 0 0 0 0 ?e"
  have de: "Day ?e = Day ?A"
    unfolding groupWindowEnd_eq by (rule Day_endOfDay)
  have s: "?s = Day ?A * msPerDay"
    by (simp only: startOfDay_eq de)
  have "Day ?s = Day ?e"
    by (simp only: s de Day_mult)
  then have "getDate ?e = getDate ?s"
    by (rule getDate_Day [symmetric])
  then have "groupWindowStart now es d = ?s - (d - 1) * msPerDay"
    by (simp add: groupWindowStart_def Let_def setDate_shift_back)
  then show ?thesis
    by (simp only: s) (simp add: algebra_simps)
qed

lemma dayBuckets_dates_eq:
  "map date (dayBuckets now es days)
     = map (\<lambda>i. (Day (if es = [] then now else Max (timestamp ` set es))
                   - ((if days \<le> 0 then 1 else days) - 1) + int i) * msPerDay)
         [0..<nat (if days \<le> 0 then 1 else days)]"
  unfolding dayBuckets_dates groupWindowStart_eq by (simp add: algebra_simps)

lemma groupEntriesByDay_labels:
  "labels (groupEntriesByDay now es days)
     = map (\<lambda>i. dayLabel ((Day (if es = [] then now else Max (timestamp ` set es))
                   - ((if days \<le> 0 then 1 else days) - 1) + int i) * msPerDay))
         [0..<nat (if days \<le> 0 then 1 else days)]"
proof -
  have "labels (groupEntriesByDay now es days) = map dayLabel (map date (dayBuckets now es days))"
    by (simp add: groupEntriesByDay_def comp_def)
  then show ?thesis
    by (simp only: dayBuckets_dates_eq map_map comp_def)
qed






lemma dayBuckets_nonempty: "dayBuckets now es days \<noteq> []"
proof -
  have "length (dayBuckets now es days) \<noteq> 0"
    unfolding dayBuckets_length by simp
  then show ?thesis
    by simp
qed

text \<open>
  Claim C10. \<open>groupEntriesByDay\<close> takes the entries and the number of days, and no window.
  With entries, its last bucket is the calendar day of the latest timestamp among them and
  its first bucket that day minus \<open>days - 1\<close> days; without entries, its last bucket is the
  calendar day of the clock at the call. The labels are the month and day of these dates:
  they depend on the entries passed in (and on the clock when there are none), and on
  nothing else the caller holds.
\<close>

theorem C10_buckets_anchored_to_entries:
  "date (last (dayBuckets now es days))
     = setHours 0 0 0 0 (if es = [] then now else Max (timestamp ` set es))
   \<and> date (hd (dayBuckets now es days))
     = setHours 0 0 0 0 (if es = [] then now else Max (timestamp ` set es))
         - ((if days \<le> 0 then 1 else days) - 1) * msPerDay
   \<and> labels (groupEntriesByDay now es days)
     = map (\<lambda>i. dayLabel (setHours 0 0 0 0 (if es = [] then now else Max (timestamp ` set es))
                     - ((if days \<le> 0 then 1 else days) - 1 - int i) * msPerDay))
         [0..<nat (if days \<le> 0 then 1 else days)]"
proof -
  let ?A = "if es = [] then now else Max (timestamp ` set es)"
  let ?D = "if days \<le> 0 then 1 else days"
  let ?f = "\<lambda>i. (Day ?A - (?D - 1) + int i) * msPerDay"
  have D: "0 < nat ?D"
    by simp
  have ne: "[0..<nat ?D] \<noteq> []"
    using D by simp
  have "date (last (dayBuckets now es days)) = last (map date (dayBuckets now es days))"
    by (simp add: last_map dayBuckets_nonempty)
  also have "\<dots> = last (map ?f [0..<nat ?D])"
    by (simp only: dayBuckets_dates_eq)
  also have "\<dots> = ?f (nat ?D - 1)"
    using ne D by (simp add: last_map del: upt_eq_Nil_conv)
  also have "\<dots> = Day ?A * msPerDay"
    by simp
  finally have l: "date (last (dayBuckets now es days)) = setHours 0 0 0 0 ?A"
    by (simp only: startOfDay_eq)
  have "date (hd (dayBuckets now es days)) = hd (map date (dayBuckets now es days))"
    by (simp add: hd_map dayBuckets_nonempty)
  also have "\<dots> = hd (map ?f [0..<nat ?D])"
    by (simp only: dayBuckets_dates_eq)
  also have "\<dots> = ?f 0"
    using ne D by (simp add: hd_map del: upt_eq_Nil_conv)
  finally have h: "date (hd (dayBuckets now es days)) = setHours 0 0 0 0 ?A - (?D - 1) * msPerDay"
    by (simp add: startOfDay_eq algebra_simps)
  have "labels (groupEntriesByDay now es days) = map (\<lambda>i. dayLabel (?f i)) [0..<nat ?D]"
    by (rule groupEntriesByDay_labels)
  also have "\<dots> = map (\<lambda>i. dayLabel (setHours 0 0 0 0 ?A - (?D - 1 - int i) * msPerDay)) [0..<nat ?D]"
    by (simp add: startOfDay_eq algebra_simps)
  finally show ?thesis
    using l h by simp
qed

lemma groupEntriesByDay_clock:
  assumes "es \<noteq> []"
  shows "groupEntriesByDay now1 es days = groupEntriesByDay now2 es days"
proof -
  have "groupWindowStart now1 es d = groupWindowStart now2 es d" for d
    using assms by (simp add: groupWindowStart_eq)
  then have "dayBuckets now1 es days = dayBuckets now2 es days"
    by (simp add: dayBuckets_eq)
  then show ?thesis
    by (simp add: groupEntriesByDay_def)
qed

text \<open>
  Claim C9, as stated, fails for the aggregation. Two calls with the same arguments, no
  entries and span week, one on 4 October 2024 at 10:00 (1728036000000) and one a day
  later (1728122400000), label their last bucket differently: without entries
  \<open>groupEntriesByDay\<close> reads the clock.
\<close>

theorem C9_counterexample:
  "labels (processEntriesForChart 1728036000000 [] week) ! 6 = ''10/4''
   \<and> labels (processEntriesForChart 1728122400000 [] week) ! 6 = ''10/5''"
proof -
  have "labels (processEntriesForChart 1728036000000 [] week) ! 6
          = dayLabel ((Day 1728036000000 - (7 - 1) + int 6) * msPerDay)"
    by (simp add: groupEntriesByDay_labels)
  moreover have "dayLabel ((Day 1728036000000 - (7 - 1) + int 6) * msPerDay) = ''10/4''"
    by code_simp
  moreover have "labels (processEntriesForChart 1728122400000 [] week) ! 6
          = dayLabel ((Day 1728122400000 - (7 - 1) + int 6) * msPerDay)"
    by (simp add: groupEntriesByDay_labels)
  moreover have "dayLabel ((Day 1728122400000 - (7 - 1) + int 6) * msPerDay) = ''10/5''"
    by code_simp
  ultimately show ?thesis
    by simp
qed

text \<open>
  Claim C9, amended. For a non-empty list of entries, and for every list in the day view,
  \<open>processEntriesForChart\<close> returns the same chart data whenever it is called; for the
  empty list in the other views, the labels follow the day of the call. The window is a
  function of the anchor and the span alone.
\<close>

theorem C9_same_inputs_same_chart:
  assumes "es \<noteq> [] \<or> sp = day"
  shows "processEntriesForChart now1 es sp = processEntriesForChart now2 es sp
         \<and> windowEnd a = Day a * msPerDay + (msPerDay - 1)
         \<and> windowStart a sp' = (Day a - (getWindowLength sp' - 1)) * msPerDay"
proof (cases "sp = day")
  case True
  then show ?thesis
    by (simp add: windowEnd_eq windowStart_eq)
next
  case False
  then have "es \<noteq> []"
    using assms by simp
  then have "groupEntriesByDay now1 es d = groupEntriesByDay now2 es d" for d
    by (rule groupEntriesByDay_clock)
  then show ?thesis
    by (cases sp) (simp_all add: windowEnd_eq windowStart_eq)
qed

theorem C9_same_inputs_same_chart_witness:
  "processEntriesForChart 1728036000000
       [\<lparr>amountCups = 1, fatigue = 2, timestamp = 1705140000000\<rparr>] week
     = processEntriesForChart 1728122400000
         [\<lparr>amountCups = 1, fatigue = 2, timestamp = 1705140000000\<rparr>] week"
proof -
  have "[\<lparr>amountCups = 1, fatigue = 2, timestamp = 1705140000000::int\<rparr>] \<noteq> [] \<or> week = day"
    by simp
  from C9_same_inputs_same_chart [OF this, of 1728036000000 1728122400000]
  show ?thesis
    by simp
qed




end
